theory Spec2Isabelle
  imports Main
begin

section \<open>The Command hook of ariakit-react-core (command.tsx)\<close>

text \<open>
  A shallow embedding of \<^verbatim>\<open>packages/ariakit-react-core/src/command/command.tsx\<close>:
  the classifier \<^verbatim>\<open>isNativeClick\<close>, the two keyboard handlers that
  \<^verbatim>\<open>useCommand\<close> builds, the effect that records whether the mounted element is a
  native button, and the props object the hook assembles.

  JavaScript objects that the handlers mutate are passed and returned explicitly: a
  handler takes the keyboard event and the world and returns both, updated.
\<close>

subsection \<open>Elements and keyboard events\<close>

text \<open>
  A DOM element, as far as the source reads it: its identity, \<^verbatim>\<open>tagName\<close> and
  \<^verbatim>\<open>isContentEditable\<close>.
\<close>

record element =
  node :: nat
  tagName :: string
  isContentEditable :: bool

text \<open>
  React's \<^verbatim>\<open>KeyboardEvent\<close>, with the properties the source reads. \<^verbatim>\<open>view\<close>
  is an own property of the event object; \<open>None\<close> stands for an object that has no such
  property, which is what the rest pattern \<^verbatim>\<open>const { view, ...eventInit } = event\<close>
  leaves in \<^verbatim>\<open>eventInit\<close>.
\<close>

record keyboard_event =
  isTrusted :: bool
  key :: string
  defaultPrevented :: bool
  shiftKey :: bool
  ctrlKey :: bool
  altKey :: bool
  metaKey :: bool
  view :: "nat option"
  target :: element
  currentTarget :: element

text \<open>\<^verbatim>\<open>event.preventDefault()\<close> on React's synthetic event.\<close>

definition preventDefault :: "keyboard_event \<Rightarrow> keyboard_event" where
  "preventDefault event = event\<lparr>defaultPrevented := True\<rparr>"

text \<open>
  \<^verbatim>\<open>const { view, ...eventInit } = event\<close>: every property of the event but
  \<^verbatim>\<open>view\<close>.
\<close>

definition withoutView :: "keyboard_event \<Rightarrow> keyboard_event" where
  "withoutView event = event\<lparr>view := None\<rparr>"

subsection \<open>The world the handlers act on\<close>

text \<open>
  The closure \<^verbatim>\<open>() => fireClickEvent(element, eventInit)\<close>, as data: the element
  and the event init it captured.
\<close>

datatype task = Click element keyboard_event

text \<open>
  The state outside the handlers. Every call of \<^verbatim>\<open>useCommand\<close> in a component
  tree is an instance with its own hook cells, numbered here: \<^verbatim>\<open>active\<close>
  (\<^verbatim>\<open>useState(false)\<close>), \<^verbatim>\<open>activeRef\<close> (\<^verbatim>\<open>useRef(false)\<close>) and
  \<^verbatim>\<open>isNativeButton\<close> (\<^verbatim>\<open>useState(false)\<close>). \<open>microtasks\<close> is the queue
  that \<^verbatim>\<open>queueMicrotask\<close> appends to, \<open>beforeEvent\<close> the callbacks registered by
  \<^verbatim>\<open>queueBeforeEvent\<close> (element, event type, callback), and \<open>dispatched\<close> the
  clicks that \<^verbatim>\<open>fireClickEvent\<close> has dispatched so far.
\<close>

record world =
  active :: "nat \<Rightarrow> bool"
  activeRef :: "nat \<Rightarrow> bool"
  isNativeButton :: "nat \<Rightarrow> bool"
  microtasks :: "task list"
  beforeEvent :: "(element \<times> string \<times> task) list"
  dispatched :: "(element \<times> keyboard_event) list"

type_synonym handler = "keyboard_event \<Rightarrow> world \<Rightarrow> keyboard_event \<times> world"

definition setActive :: "nat \<Rightarrow> bool \<Rightarrow> world \<Rightarrow> world" where
  "setActive i b w = w\<lparr>active := (active w)(i := b)\<rparr>"

definition setActiveRef :: "nat \<Rightarrow> bool \<Rightarrow> world \<Rightarrow> world" where
  "setActiveRef i b w = w\<lparr>activeRef := (activeRef w)(i := b)\<rparr>"

definition setIsNativeButton :: "nat \<Rightarrow> bool \<Rightarrow> world \<Rightarrow> world" where
  "setIsNativeButton i b w = w\<lparr>isNativeButton := (isNativeButton w)(i := b)\<rparr>"

definition queueMicrotask :: "task \<Rightarrow> world \<Rightarrow> world" where
  "queueMicrotask t w = w\<lparr>microtasks := microtasks w @ [t]\<rparr>"

text \<open>
  Modelled from the spec: \<^verbatim>\<open>queueBeforeEvent\<close> of
  \<^verbatim>\<open>@ariakit/core/utils/events\<close> is not among the sources. The spec describes it as
  a hook that runs the callback immediately before the next occurrence of the named event
  on the element; the model records the registration.
\<close>

definition queueBeforeEvent :: "element \<Rightarrow> string \<Rightarrow> task \<Rightarrow> world \<Rightarrow> world" where
  "queueBeforeEvent el type t w = w\<lparr>beforeEvent := beforeEvent w @ [(el, type, t)]\<rparr>"

text \<open>
  Modelled from the spec: \<^verbatim>\<open>fireClickEvent\<close> of \<^verbatim>\<open>@ariakit/core/utils/events\<close>
  is not among the sources. The spec has it construct and dispatch a click on the element
  from the given event init; the model appends the click to \<open>dispatched\<close>.
\<close>

definition fireClickEvent :: "element \<Rightarrow> keyboard_event \<Rightarrow> world \<Rightarrow> world" where
  "fireClickEvent el eventInit w = w\<lparr>dispatched := dispatched w @ [(el, eventInit)]\<rparr>"

text \<open>Running a queued closure.\<close>

fun runTask :: "task \<Rightarrow> world \<Rightarrow> world" where
  "runTask (Click el eventInit) w = fireClickEvent el eventInit w"

subsection \<open>Props, and what the hook imports\<close>

datatype jsval = Undefined | JBool bool | JStr string

text \<open>
  A props object: \<^verbatim>\<open>props.onKeyDown\<close>, \<^verbatim>\<open>props.onKeyUp\<close>, and every other
  prop by name.
\<close>

record props =
  propsOnKeyDown :: "handler option"
  propsOnKeyUp :: "handler option"
  others :: "string \<rightharpoonup> jsval"

text \<open>
  The functions the hook imports from modules that are not among the sources, taken as
  parameters: \<^verbatim>\<open>isButton\<close> and \<^verbatim>\<open>isTextField\<close> (\<^verbatim>\<open>@ariakit/core/utils/dom\<close>),
  \<^verbatim>\<open>isSelfTarget\<close> (\<^verbatim>\<open>@ariakit/core/utils/events\<close>), \<^verbatim>\<open>isFirefox\<close>
  (\<^verbatim>\<open>@ariakit/core/utils/platform\<close>), \<^verbatim>\<open>disabledFromProps\<close>
  (\<^verbatim>\<open>@ariakit/core/utils/misc\<close>), \<^verbatim>\<open>useMetadataProps\<close> (\<^verbatim>\<open>../utils/hooks.ts\<close>,
  called with the module's symbol and \<^verbatim>\<open>true\<close>; it returns the duplicate marker and
  the metadata props) and \<^verbatim>\<open>useFocusable\<close> (\<^verbatim>\<open>../focusable/focusable.tsx\<close>).
\<close>

record deps =
  isButton :: "element \<Rightarrow> bool"
  isTextField :: "element \<Rightarrow> bool"
  isSelfTarget :: "keyboard_event \<Rightarrow> bool"
  isFirefox :: bool
  disabledFromProps :: "props \<Rightarrow> bool"
  useMetadataProps :: "props \<Rightarrow> bool \<times> (string \<rightharpoonup> jsval)"
  useFocusable :: "props \<Rightarrow> props"

text \<open>
  The variables of one call of \<^verbatim>\<open>useCommand\<close> that its two handlers close over:
  the instance (whose hook cells \<^verbatim>\<open>activeRef\<close> and \<^verbatim>\<open>setActive\<close> belong to),
  \<^verbatim>\<open>clickOnEnter\<close>, \<^verbatim>\<open>clickOnSpace\<close>, \<^verbatim>\<open>disabled\<close>, \<^verbatim>\<open>isDuplicate\<close>,
  \<^verbatim>\<open>onKeyDownProp\<close> and \<^verbatim>\<open>onKeyUpProp\<close>.
\<close>

record command =
  inst :: nat
  clickOnEnter :: bool
  clickOnSpace :: bool
  disabled :: bool
  isDuplicate :: bool
  onKeyDownProp :: "handler option"
  onKeyUpProp :: "handler option"

subsection \<open>isNativeClick\<close>

definition isNativeClick :: "deps \<Rightarrow> keyboard_event \<Rightarrow> bool" where
  "isNativeClick d event =
    (if \<not> isTrusted event then False
     else
       let element = currentTarget event in
       if key event = ''Enter'' then
         isButton d element \<or> tagName element = ''SUMMARY'' \<or> tagName element = ''A''
       else if key event = '' '' then
         isButton d element \<or> tagName element = ''SUMMARY'' \<or>
         tagName element = ''INPUT'' \<or> tagName element = ''SELECT''
       else False)"

subsection \<open>The keydown and keyup handlers\<close>

text \<open>\<^verbatim>\<open>onKeyDownProp?.(event)\<close>: the user-supplied handler, when there is one.\<close>

definition callProp :: "handler option \<Rightarrow> handler" where
  "callProp h event w = (case h of None \<Rightarrow> (event, w) | Some f \<Rightarrow> f event w)"

definition onKeyDown :: "deps \<Rightarrow> command \<Rightarrow> handler" where
  "onKeyDown d c event0 w0 =
    (let (event, w) = callProp (onKeyDownProp c) event0 w0;
         element = currentTarget event
     in
     if defaultPrevented event then (event, w)
     else if isDuplicate c then (event, w)
     else if disabled c then (event, w)
     else if \<not> isSelfTarget d event then (event, w)
     else if isTextField d element then (event, w)
     else if isContentEditable element then (event, w)
     else
       let isEnter = (clickOnEnter c \<and> key event = ''Enter'');
           isSpace = (clickOnSpace c \<and> key event = '' '');
           shouldPreventEnter = (key event = ''Enter'' \<and> \<not> clickOnEnter c);
           shouldPreventSpace = (key event = '' '' \<and> \<not> clickOnSpace c)
       in
       if shouldPreventEnter \<or> shouldPreventSpace then (preventDefault event, w)
       else if isEnter \<or> isSpace then
         let nativeClick = isNativeClick d event in
         if isEnter then
           if \<not> nativeClick then
             let event' = preventDefault event;
                 eventInit = withoutView event';
                 click = Click element eventInit
             in
             if isFirefox d then (event', queueBeforeEvent element ''keyup'' click w)
             else (event', queueMicrotask click w)
           else (event, w)
         else if isSpace then
           let w' = setActiveRef (inst c) True w in
           if \<not> nativeClick then (preventDefault event, setActive (inst c) True w')
           else (event, w')
         else (event, w)
       else (event, w))"

definition onKeyUp :: "deps \<Rightarrow> command \<Rightarrow> handler" where
  "onKeyUp d c event0 w0 =
    (let (event, w) = callProp (onKeyUpProp c) event0 w0 in
     if defaultPrevented event then (event, w)
     else if isDuplicate c then (event, w)
     else if disabled c then (event, w)
     else if metaKey event then (event, w)
     else
       let isSpace = (clickOnSpace c \<and> key event = '' '') in
       if activeRef w (inst c) \<and> isSpace then
         let w' = setActiveRef (inst c) False w in
         if \<not> isNativeClick d event then
           let event' = preventDefault event;
               w'' = setActive (inst c) False w';
               element = currentTarget event';
               eventInit = withoutView event'
           in (event', queueMicrotask (Click element eventInit) w'')
         else (event, w')
       else (event, w))"

subsection \<open>The effect after mount, and the props the hook returns\<close>

text \<open>
  \<^verbatim>\<open>useEffect(() => { if (!ref.current) return; setIsNativeButton(isButton(ref.current)); }, [])\<close>
\<close>

definition mountEffect :: "deps \<Rightarrow> nat \<Rightarrow> element option \<Rightarrow> world \<Rightarrow> world" where
  "mountEffect d i ref w =
    (case ref of None \<Rightarrow> w | Some el \<Rightarrow> setIsNativeButton i (isButton d el) w)"

text \<open>\<^verbatim>\<open>active || undefined\<close> and \<^verbatim>\<open>isNativeButton ? "button" : undefined\<close>.\<close>

definition dataActive :: "bool \<Rightarrow> jsval" where
  "dataActive a = (if a then JBool True else Undefined)"

definition typeAttr :: "bool \<Rightarrow> jsval" where
  "typeAttr b = (if b then JStr ''button'' else Undefined)"

text \<open>
  What the handlers of the call close over, from its arguments:
  \<^verbatim>\<open>{ clickOnEnter = true, clickOnSpace = true, ...props }\<close> (an option that is not
  given defaults to true), \<^verbatim>\<open>disabledFromProps(props)\<close>, the first component of
  \<^verbatim>\<open>useMetadataProps(props, symbol, true)\<close>, \<^verbatim>\<open>props.onKeyDown\<close> and
  \<^verbatim>\<open>props.onKeyUp\<close>.
\<close>

definition closure :: "deps \<Rightarrow> nat \<Rightarrow> bool option \<Rightarrow> bool option \<Rightarrow> props \<Rightarrow> command" where
  "closure d i enterOpt spaceOpt p =
    \<lparr> inst = i,
      clickOnEnter = (case enterOpt of None \<Rightarrow> True | Some b \<Rightarrow> b),
      clickOnSpace = (case spaceOpt of None \<Rightarrow> True | Some b \<Rightarrow> b),
      disabled = disabledFromProps d p,
      isDuplicate = fst (useMetadataProps d p),
      onKeyDownProp = propsOnKeyDown p,
      onKeyUpProp = propsOnKeyUp p \<rparr>"

text \<open>
  The object literal assigned to \<^verbatim>\<open>props\<close> before \<^verbatim>\<open>useFocusable\<close>: the two
  defaults, then the metadata props, then the caller's props (a later key overrides an
  earlier one), then the two handlers of this call. The merged \<^verbatim>\<open>ref\<close> is left out.
\<close>

definition commandProps ::
  "deps \<Rightarrow> nat \<Rightarrow> bool option \<Rightarrow> bool option \<Rightarrow> props \<Rightarrow> world \<Rightarrow> props" where
  "commandProps d i enterOpt spaceOpt p w =
    (let c = closure d i enterOpt spaceOpt p;
         metadataProps = snd (useMetadataProps d p)
     in
     \<lparr> propsOnKeyDown = Some (onKeyDown d c),
       propsOnKeyUp = Some (onKeyUp d c),
       others =
         [''data-active'' \<mapsto> dataActive (active w i),
          ''type'' \<mapsto> typeAttr (isNativeButton w i)]
         ++ metadataProps ++ others p \<rparr>)"

definition useCommand ::
  "deps \<Rightarrow> nat \<Rightarrow> bool option \<Rightarrow> bool option \<Rightarrow> props \<Rightarrow> world \<Rightarrow> props" where
  "useCommand d i enterOpt spaceOpt p w =
    useFocusable d (commandProps d i enterOpt spaceOpt p w)"

subsection \<open>Notions used to state the properties\<close>

text \<open>
  The guards at the head of the keydown handler (lines 77 to 82), and those at the head
  of the keyup handler (lines 127 to 130), each as one predicate on the event that the
  user-supplied handler has left.
\<close>

definition keyDownVeto :: "deps \<Rightarrow> command \<Rightarrow> keyboard_event \<Rightarrow> bool" where
  "keyDownVeto d c event =
    (defaultPrevented event \<or> isDuplicate c \<or> disabled c \<or> \<not> isSelfTarget d event \<or>
     isTextField d (currentTarget event) \<or> isContentEditable (currentTarget event))"

definition keyUpVeto :: "command \<Rightarrow> keyboard_event \<Rightarrow> bool" where
  "keyUpVeto c event =
    (defaultPrevented event \<or> isDuplicate c \<or> disabled c \<or> metaKey event)"

text \<open>
  The closures scheduled between two worlds: what the second has beyond the first in the
  microtask queue and among the callbacks registered before an event.
\<close>

definition newTasks :: "world \<Rightarrow> world \<Rightarrow> task list" where
  "newTasks w w' =
    drop (length (microtasks w)) (microtasks w') @
    map (\<lambda>(el, type, t). t) (drop (length (beforeEvent w)) (beforeEvent w'))"

text \<open>
  The second world has the queues of the first with new entries appended only, and the
  same dispatched clicks.
\<close>

definition appendsOnly :: "world \<Rightarrow> world \<Rightarrow> bool" where
  "appendsOnly w w' =
    (microtasks w' = microtasks w @ drop (length (microtasks w)) (microtasks w') \<and>
     beforeEvent w' = beforeEvent w @ drop (length (beforeEvent w)) (beforeEvent w') \<and>
     dispatched w' = dispatched w)"

text \<open>
  A nested registration: the call \<open>a\<close> of the hook receives the props that the call
  \<open>m\<close> returned for the same element. Its \<^verbatim>\<open>props.onKeyDown\<close> and
  \<^verbatim>\<open>props.onKeyUp\<close> are the handlers of \<open>m\<close>, and \<^verbatim>\<open>useMetadataProps\<close> finds
  the marker that \<open>m\<close> left, so \<^verbatim>\<open>isDuplicate\<close> is true (the spec's
  Duplicate-Registration Marker). \<open>nestAll\<close> stacks further registrations on top.
\<close>

definition nested :: "deps \<Rightarrow> command \<Rightarrow> command \<Rightarrow> command" where
  "nested d m a =
    a\<lparr> isDuplicate := True,
       onKeyDownProp := Some (onKeyDown d m),
       onKeyUpProp := Some (onKeyUp d m) \<rparr>"

fun nestAll :: "deps \<Rightarrow> command \<Rightarrow> command list \<Rightarrow> command" where
  "nestAll d c [] = c"
| "nestAll d c (a # as) = nestAll d (nested d c a) as"

subsection \<open>Concrete inputs\<close>

definition divEl :: element where
  "divEl = \<lparr> node = 1, tagName = ''DIV'', isContentEditable = False \<rparr>"

definition buttonEl :: element where
  "buttonEl = \<lparr> node = 2, tagName = ''BUTTON'', isContentEditable = False \<rparr>"

text \<open>The same DIV after it has been made content-editable.\<close>

definition editableEl :: element where
  "editableEl = divEl\<lparr> isContentEditable := True \<rparr>"

definition domDeps :: "bool \<Rightarrow> deps" where
  "domDeps firefox =
    \<lparr> isButton = (\<lambda>el. tagName el = ''BUTTON''),
      isTextField = (\<lambda>el. tagName el = ''TEXTAREA''),
      isSelfTarget = (\<lambda>event. node (target event) = node (currentTarget event)),
      isFirefox = firefox,
      disabledFromProps = (\<lambda>p. others p ''disabled'' = Some (JBool True)),
      useMetadataProps = (\<lambda>p. (False, Map.empty)),
      useFocusable = (\<lambda>p. p) \<rparr>"

definition keyEvent :: "string \<Rightarrow> element \<Rightarrow> keyboard_event" where
  "keyEvent k el =
    \<lparr> isTrusted = True, key = k, defaultPrevented = False,
      shiftKey = True, ctrlKey = False, altKey = False, metaKey = False,
      view = Some 0, target = el, currentTarget = el \<rparr>"

definition idle :: world where
  "idle =
    \<lparr> active = (\<lambda>i. False), activeRef = (\<lambda>i. False), isNativeButton = (\<lambda>i. False),
      microtasks = [], beforeEvent = [], dispatched = [] \<rparr>"

definition plain :: command where
  "plain =
    \<lparr> inst = 0, clickOnEnter = True, clickOnSpace = True, disabled = False,
      isDuplicate = False, onKeyDownProp = None, onKeyUpProp = None \<rparr>"

text \<open>The props of \<^verbatim>\<open><Command type="submit">\<close>.\<close>

definition submitProps :: props where
  "submitProps =
    \<lparr> propsOnKeyDown = None, propsOnKeyUp = None, others = [''type'' \<mapsto> JStr ''submit''] \<rparr>"

text \<open>A user-supplied handler that calls \<^verbatim>\<open>event.preventDefault()\<close>.\<close>

definition preventing :: handler where
  "preventing event w = (preventDefault event, w)"

section \<open>What the handlers compute\<close>

text \<open>
  Both handlers first call the user-supplied handler. What they do next depends only on the
  event and the world that this call has left: nothing when a guard holds, and otherwise
  one of a few outcomes selected by the key.
\<close>

lemma onKeyDown_vetoed:
  assumes "callProp (onKeyDownProp c) event0 w0 = (event, w)" and "keyDownVeto d c event"
  shows "onKeyDown d c event0 w0 = (event, w)"
  using assms by (auto simp: onKeyDown_def keyDownVeto_def Let_def)

lemma onKeyDown_unvetoed:
  assumes "callProp (onKeyDownProp c) event0 w0 = (event, w)" and "\<not> keyDownVeto d c event"
  shows "onKeyDown d c event0 w0 =
    (if (key event = ''Enter'' \<and> \<not> clickOnEnter c) \<or> (key event = '' '' \<and> \<not> clickOnSpace c)
       then (preventDefault event, w)
     else if key event = ''Enter'' then
       (if isNativeClick d event then (event, w)
        else if isFirefox d then
          (preventDefault event,
           queueBeforeEvent (currentTarget event) ''keyup''
             (Click (currentTarget event) (withoutView (preventDefault event))) w)
        else
          (preventDefault event,
           queueMicrotask (Click (currentTarget event) (withoutView (preventDefault event))) w))
     else if key event = '' '' then
       (if isNativeClick d event then (event, setActiveRef (inst c) True w)
        else (preventDefault event, setActive (inst c) True (setActiveRef (inst c) True w)))
     else (event, w))"
  using assms by (auto simp: onKeyDown_def keyDownVeto_def Let_def)

lemma onKeyUp_vetoed:
  assumes "callProp (onKeyUpProp c) event0 w0 = (event, w)" and "keyUpVeto c event"
  shows "onKeyUp d c event0 w0 = (event, w)"
  using assms by (auto simp: onKeyUp_def keyUpVeto_def Let_def)

lemma onKeyUp_unvetoed:
  assumes "callProp (onKeyUpProp c) event0 w0 = (event, w)" and "\<not> keyUpVeto c event"
  shows "onKeyUp d c event0 w0 =
    (if activeRef w (inst c) \<and> clickOnSpace c \<and> key event = '' '' then
       (if isNativeClick d event then (event, setActiveRef (inst c) False w)
        else
          (preventDefault event,
           queueMicrotask (Click (currentTarget event) (withoutView (preventDefault event)))
             (setActive (inst c) False (setActiveRef (inst c) False w))))
     else (event, w))"
  using assms by (auto simp: onKeyUp_def keyUpVeto_def Let_def preventDefault_def)

lemma onKeyDown_after_prop:
  assumes "callProp (onKeyDownProp c) event0 w0 = (event, w)"
  shows "onKeyDown d c event0 w0 = onKeyDown d (c\<lparr>onKeyDownProp := None\<rparr>) event w"
proof -
  have "callProp (onKeyDownProp (c\<lparr>onKeyDownProp := None\<rparr>)) event w = (event, w)"
    by (simp add: callProp_def)
  then show ?thesis
    using assms by (simp add: onKeyDown_def Let_def cong: if_cong)
qed

lemma onKeyUp_after_prop:
  assumes "callProp (onKeyUpProp c) event0 w0 = (event, w)"
  shows "onKeyUp d c event0 w0 = onKeyUp d (c\<lparr>onKeyUpProp := None\<rparr>) event w"
proof -
  have "callProp (onKeyUpProp (c\<lparr>onKeyUpProp := None\<rparr>)) event w = (event, w)"
    by (simp add: callProp_def)
  then show ?thesis
    using assms by (simp add: onKeyUp_def Let_def cong: if_cong)
qed

lemmas world_ops =
  setActive_def setActiveRef_def queueMicrotask_def queueBeforeEvent_def newTasks_def
  appendsOnly_def

lemmas event_ops = preventDefault_def withoutView_def

lemmas fixtures =
  divEl_def buttonEl_def editableEl_def domDeps_def keyEvent_def idle_def plain_def
  preventing_def callProp_def submitProps_def

text \<open>
  What a handler schedules: nothing, or one closure firing a click on the current target
  with the event as the handler leaves it, minus \<^verbatim>\<open>view\<close>.
\<close>

lemma onKeyDown_schedules:
  assumes "callProp (onKeyDownProp c) event0 w0 = (event, w)"
    and "onKeyDown d c event0 w0 = (event', w')"
  shows "appendsOnly w w' \<and>
    newTasks w w' =
      (if \<not> keyDownVeto d c event \<and> clickOnEnter c \<and> key event = ''Enter'' \<and>
          \<not> isNativeClick d event
       then [Click (currentTarget event) (withoutView event')] else []) \<and>
    (newTasks w w' \<noteq> [] \<longrightarrow> event' = preventDefault event)"
proof (cases "keyDownVeto d c event")
  case True
  then show ?thesis
    using assms onKeyDown_vetoed [OF assms(1) True] by (simp add: world_ops)
next
  case False
  then show ?thesis
    using assms(2) onKeyDown_unvetoed [OF assms(1) False]
    by (auto simp: world_ops split: if_splits)
qed

lemma onKeyUp_schedules:
  assumes "callProp (onKeyUpProp c) event0 w0 = (event, w)"
    and "onKeyUp d c event0 w0 = (event', w')"
  shows "appendsOnly w w' \<and>
    newTasks w w' =
      (if \<not> keyUpVeto c event \<and> activeRef w (inst c) \<and> clickOnSpace c \<and> key event = '' '' \<and>
          \<not> isNativeClick d event
       then [Click (currentTarget event) (withoutView event')] else []) \<and>
    (newTasks w w' \<noteq> [] \<longrightarrow> event' = preventDefault event)"
proof (cases "keyUpVeto c event")
  case True
  then show ?thesis
    using assms onKeyUp_vetoed [OF assms(1) True] by (simp add: world_ops)
next
  case False
  then show ?thesis
    using assms(2) onKeyUp_unvetoed [OF assms(1) False]
    by (auto simp: world_ops split: if_splits)
qed

text \<open>
  A nested registration stops at \<^verbatim>\<open>isDuplicate\<close> after it has called the handler
  it received: its handlers are those of the registration below.
\<close>

lemma onKeyDown_nested: "onKeyDown d (nested d m a) = onKeyDown d m"
proof (intro ext)
  fix event0 w0
  obtain event w where inner: "onKeyDown d m event0 w0 = (event, w)"
    by (cases "onKeyDown d m event0 w0")
  then have "callProp (onKeyDownProp (nested d m a)) event0 w0 = (event, w)"
    by (simp add: nested_def callProp_def)
  moreover have "keyDownVeto d (nested d m a) event"
    by (simp add: keyDownVeto_def nested_def)
  ultimately show "onKeyDown d (nested d m a) event0 w0 = onKeyDown d m event0 w0"
    using inner by (simp add: onKeyDown_vetoed)
qed

lemma onKeyUp_nested: "onKeyUp d (nested d m a) = onKeyUp d m"
proof (intro ext)
  fix event0 w0
  obtain event w where inner: "onKeyUp d m event0 w0 = (event, w)"
    by (cases "onKeyUp d m event0 w0")
  then have "callProp (onKeyUpProp (nested d m a)) event0 w0 = (event, w)"
    by (simp add: nested_def callProp_def)
  moreover have "keyUpVeto (nested d m a) event"
    by (simp add: keyUpVeto_def nested_def)
  ultimately show "onKeyUp d (nested d m a) event0 w0 = onKeyUp d m event0 w0"
    using inner by (simp add: onKeyUp_vetoed)
qed

lemma handlers_nestAll:
  "onKeyDown d (nestAll d c dups) = onKeyDown d c \<and> onKeyUp d (nestAll d c dups) = onKeyUp d c"
  by (induction dups arbitrary: c) (simp_all add: onKeyDown_nested onKeyUp_nested)

text \<open>
  A handler only queues the closure. The click is dispatched when the closure is run.
\<close>

lemma runTask_dispatches:
  "dispatched (runTask (Click el eventInit) w) = dispatched w @ [(el, eventInit)]"
  by (simp add: fireClickEvent_def)

text \<open>
  The flag \<^verbatim>\<open>active\<close> of the instance: a keydown never resets it, and a keyup resets
  it only on the path that fires the click.
\<close>

lemma onKeyDown_keeps_active:
  assumes "callProp (onKeyDownProp c) event0 w0 = (event, w)"
    and "onKeyDown d c event0 w0 = (event', w')"
    and "active w (inst c)"
  shows "active w' (inst c)"
proof (cases "keyDownVeto d c event")
  case True
  then show ?thesis
    using assms onKeyDown_vetoed [OF assms(1) True] by simp
next
  case False
  then show ?thesis
    using assms(2,3) onKeyDown_unvetoed [OF assms(1) False]
    by (auto simp: world_ops split: if_splits)
qed

lemma onKeyUp_resets_active:
  assumes "callProp (onKeyUpProp c) event0 w0 = (event, w)"
    and "onKeyUp d c event0 w0 = (event', w')"
    and "active w (inst c)" and "\<not> active w' (inst c)"
  shows "\<not> keyUpVeto c event \<and> key event = '' '' \<and> clickOnSpace c \<and> activeRef w (inst c) \<and>
         \<not> isNativeClick d event"
proof (cases "keyUpVeto c event")
  case True
  then show ?thesis
    using assms onKeyUp_vetoed [OF assms(1) True] by simp
next
  case False
  then show ?thesis
    using assms(2,3,4) onKeyUp_unvetoed [OF assms(1) False]
    by (auto simp: world_ops split: if_splits)
qed

text \<open>The handlers on two concrete key presses.\<close>

lemma enter_on_div:
  "onKeyDown (domDeps ff) plain (keyEvent ''Enter'' divEl) idle =
    (preventDefault (keyEvent ''Enter'' divEl),
     if ff then
       queueBeforeEvent divEl ''keyup''
         (Click divEl (withoutView (preventDefault (keyEvent ''Enter'' divEl)))) idle
     else queueMicrotask (Click divEl (withoutView (preventDefault (keyEvent ''Enter'' divEl)))) idle)"
  by (simp add: onKeyDown_def isNativeClick_def fixtures Let_def)

lemma space_down_on_div:
  "onKeyDown (domDeps ff) plain (keyEvent '' '' divEl) idle =
    (preventDefault (keyEvent '' '' divEl), setActive 0 True (setActiveRef 0 True idle))"
  by (simp add: onKeyDown_def isNativeClick_def fixtures Let_def)

section \<open>The native-click classifier\<close>

text \<open>
  C3. \<^verbatim>\<open>isNativeClick\<close> is true exactly when the event is trusted and either the key
  is Enter and the current target is a button (\<^verbatim>\<open>isButton\<close>), a SUMMARY or an A, or
  the key is Space and the current target is a button, a SUMMARY, an INPUT or a SELECT.
  It is false for every untrusted event and for every other key. The classifier only
  reads the event: it is a function of the event alone and returns a boolean.
\<close>

theorem isNativeClick_table:
  "isNativeClick d event =
     (isTrusted event \<and>
      ((key event = ''Enter'' \<and>
          (isButton d (currentTarget event) \<or> tagName (currentTarget event) = ''SUMMARY'' \<or>
           tagName (currentTarget event) = ''A'')) \<or>
       (key event = '' '' \<and>
          (isButton d (currentTarget event) \<or> tagName (currentTarget event) = ''SUMMARY'' \<or>
           tagName (currentTarget event) = ''INPUT'' \<or>
           tagName (currentTarget event) = ''SELECT''))))"
  by (auto simp: isNativeClick_def Let_def)

section \<open>The guards of the keydown handler\<close>

text \<open>
  C4. On every keydown the user-supplied \<^verbatim>\<open>onKeyDown\<close>, when there is one, runs
  first and whatever the instance is (disabled or a duplicate registration included): the
  handler does what the same handler without a user-supplied one does on the event and
  the world that the user's handler has left. Then it returns with no further action when
  the event's default is already prevented, the instance is a duplicate registration, the
  element is disabled, the event did not originate from the element itself, the element
  is a text field, or the element is content-editable. The six guards only read the event
  and the closure, so the order in which the source tests them cannot be observed; the
  definition of \<open>onKeyDown\<close> keeps it.
\<close>

theorem keydown_user_handler_then_guards:
  assumes "callProp (onKeyDownProp c) event0 w0 = (event, w)"
  shows "onKeyDown d c event0 w0 = onKeyDown d (c\<lparr>onKeyDownProp := None\<rparr>) event w \<and>
         (keyDownVeto d c event \<longrightarrow> onKeyDown d c event0 w0 = (event, w))"
  using onKeyDown_after_prop [OF assms, of d] onKeyDown_vetoed [OF assms, of d] by blast

text \<open>
  A disabled instance whose user-supplied handler prevents the default: the handler has
  run, and nothing else has happened.
\<close>

theorem keydown_user_handler_then_guards_witness:
  "callProp (onKeyDownProp (plain\<lparr>disabled := True, onKeyDownProp := Some preventing\<rparr>))
      (keyEvent ''Enter'' divEl) idle = (preventDefault (keyEvent ''Enter'' divEl), idle) \<and>
   keyDownVeto (domDeps False) (plain\<lparr>disabled := True, onKeyDownProp := Some preventing\<rparr>)
      (preventDefault (keyEvent ''Enter'' divEl)) \<and>
   onKeyDown (domDeps False) (plain\<lparr>disabled := True, onKeyDownProp := Some preventing\<rparr>)
      (keyEvent ''Enter'' divEl) idle = (preventDefault (keyEvent ''Enter'' divEl), idle)"
  using keydown_user_handler_then_guards
    [of "plain\<lparr>disabled := True, onKeyDownProp := Some preventing\<rparr>"
        "keyEvent ''Enter'' divEl" idle "preventDefault (keyEvent ''Enter'' divEl)" idle
        "domDeps False"]
  by (simp add: callProp_def preventing_def plain_def keyDownVeto_def onKeyDown_def
      preventDefault_def)

section \<open>Enter\<close>

text \<open>
  C1. On an Enter keydown that no guard stops, with \<^verbatim>\<open>clickOnEnter\<close> true and
  \<^verbatim>\<open>isNativeClick\<close> false (in particular a trusted event on an element that is
  neither a button, a SUMMARY nor an A), the handler calls \<^verbatim>\<open>preventDefault\<close> and
  schedules exactly one closure that fires the click; it dispatches nothing itself. On
  Firefox the closure is registered with \<^verbatim>\<open>queueBeforeEvent\<close> for the next keyup on
  the element, and on every other engine it is appended to the microtask queue.
\<close>

theorem enter_keydown_schedules_click:
  assumes "callProp (onKeyDownProp c) event0 w0 = (event, w)"
    and "\<not> keyDownVeto d c event"
    and "clickOnEnter c" and "key event = ''Enter''"
    and "\<not> isNativeClick d event"
    and "onKeyDown d c event0 w0 = (event', w')"
    and "click = Click (currentTarget event) (withoutView (preventDefault event))"
  shows "event' = preventDefault event \<and> defaultPrevented event' \<and>
         newTasks w w' = [click] \<and> dispatched w' = dispatched w \<and>
         (if isFirefox d
          then beforeEvent w' = beforeEvent w @ [(currentTarget event, ''keyup'', click)] \<and>
               microtasks w' = microtasks w
          else microtasks w' = microtasks w @ [click] \<and> beforeEvent w' = beforeEvent w) \<and>
         active w' = active w \<and> activeRef w' = activeRef w"
proof -
  have "(event', w') =
      (preventDefault event,
       if isFirefox d then queueBeforeEvent (currentTarget event) ''keyup'' click w
       else queueMicrotask click w)"
    using assms onKeyDown_unvetoed [OF assms(1,2)] by (auto split: if_splits)
  then show ?thesis
    by (simp add: world_ops event_ops)
qed

theorem enter_keydown_schedules_click_witness:
  "\<not> keyDownVeto (domDeps False) plain (keyEvent ''Enter'' divEl) \<and>
   \<not> isNativeClick (domDeps False) (keyEvent ''Enter'' divEl) \<and>
   defaultPrevented (fst (onKeyDown (domDeps False) plain (keyEvent ''Enter'' divEl) idle)) \<and>
   microtasks (snd (onKeyDown (domDeps False) plain (keyEvent ''Enter'' divEl) idle)) =
     [Click divEl (withoutView (preventDefault (keyEvent ''Enter'' divEl)))] \<and>
   dispatched (snd (onKeyDown (domDeps False) plain (keyEvent ''Enter'' divEl) idle)) = []"
proof -
  let ?d = "domDeps False" and ?e = "keyEvent ''Enter'' divEl"
  have user: "callProp (onKeyDownProp plain) ?e idle = (?e, idle)"
    by (simp add: fixtures)
  have free: "\<not> keyDownVeto ?d plain ?e"
    by (simp add: keyDownVeto_def fixtures)
  have enter: "clickOnEnter plain" "key ?e = ''Enter''"
    by (simp_all add: fixtures)
  have synth: "\<not> isNativeClick ?d ?e"
    by (simp add: isNativeClick_def fixtures)
  have res: "onKeyDown ?d plain ?e idle =
      (fst (onKeyDown ?d plain ?e idle), snd (onKeyDown ?d plain ?e idle))"
    by simp
  have el: "currentTarget ?e = divEl" "isFirefox ?d = False"
      "microtasks idle = []" "dispatched idle = []"
    by (simp_all add: fixtures)
  show ?thesis
    using enter_keydown_schedules_click [OF user free enter synth res refl] free synth
    by (auto simp: el)
qed

section \<open>Space\<close>

text \<open>
  C2. With \<^verbatim>\<open>clickOnSpace\<close> true, a Space keydown that no guard stops sets the
  marker \<^verbatim>\<open>activeRef\<close> and schedules no click. When \<^verbatim>\<open>isNativeClick\<close> is
  false it also calls \<^verbatim>\<open>preventDefault\<close> and sets \<^verbatim>\<open>active\<close>; on a natively
  clicking element it leaves the event and \<^verbatim>\<open>active\<close> as they are. The Space keyup
  that follows (its user-supplied handler cannot reach the marker, and no guard stops it)
  clears the marker; when \<^verbatim>\<open>isNativeClick\<close> is false it calls
  \<^verbatim>\<open>preventDefault\<close>, resets \<^verbatim>\<open>active\<close> and appends exactly one closure firing
  the click to the microtask queue. Neither handler dispatches a click itself.
\<close>

theorem space_keydown_then_keyup:
  assumes "clickOnSpace c"
    and "callProp (onKeyDownProp c) down0 w0 = (down, w1)"
    and "\<not> keyDownVeto d c down" and "key down = '' ''"
    and "onKeyDown d c down0 w0 = (down', w2)"
    and "callProp (onKeyUpProp c) up0 w2 = (up, w3)"
    and "activeRef w3 (inst c) = activeRef w2 (inst c)"
    and "\<not> keyUpVeto c up" and "key up = '' ''"
    and "onKeyUp d c up0 w2 = (up', w4)"
  shows "activeRef w2 (inst c) \<and> newTasks w1 w2 = [] \<and> dispatched w2 = dispatched w1 \<and>
         (if isNativeClick d down
          then down' = down \<and> \<not> defaultPrevented down' \<and> active w2 = active w1
          else down' = preventDefault down \<and> defaultPrevented down' \<and> active w2 (inst c)) \<and>
         \<not> activeRef w4 (inst c) \<and> dispatched w4 = dispatched w3 \<and>
         (if isNativeClick d up
          then up' = up \<and> newTasks w3 w4 = [] \<and> active w4 = active w3
          else up' = preventDefault up \<and> defaultPrevented up' \<and> \<not> active w4 (inst c) \<and>
               newTasks w3 w4 = [Click (currentTarget up) (withoutView (preventDefault up))] \<and>
               microtasks w4 =
                 microtasks w3 @ [Click (currentTarget up) (withoutView (preventDefault up))] \<and>
               beforeEvent w4 = beforeEvent w3)"
proof -
  have down: "(down', w2) =
      (if isNativeClick d down then (down, setActiveRef (inst c) True w1)
       else (preventDefault down, setActive (inst c) True (setActiveRef (inst c) True w1)))"
    using assms(1,4,5) onKeyDown_unvetoed [OF assms(2,3)] by simp
  have live: "\<not> defaultPrevented down"
    using assms(3) by (simp add: keyDownVeto_def)
  have marker: "activeRef w2 (inst c)"
    using down by (auto simp: world_ops split: if_splits)
  then have "activeRef w3 (inst c)"
    using assms(7) by simp
  then have up: "(up', w4) =
      (if isNativeClick d up then (up, setActiveRef (inst c) False w3)
       else
         (preventDefault up,
          queueMicrotask (Click (currentTarget up) (withoutView (preventDefault up)))
            (setActive (inst c) False (setActiveRef (inst c) False w3))))"
    using assms(1,9,10) onKeyUp_unvetoed [OF assms(6,8)] by simp
  have "newTasks w1 w2 = [] \<and> dispatched w2 = dispatched w1 \<and>
         (if isNativeClick d down
          then down' = down \<and> \<not> defaultPrevented down' \<and> active w2 = active w1
          else down' = preventDefault down \<and> defaultPrevented down' \<and> active w2 (inst c))"
    using down live by (auto simp: world_ops event_ops split: if_splits)
  moreover have "\<not> activeRef w4 (inst c) \<and> dispatched w4 = dispatched w3 \<and>
         (if isNativeClick d up
          then up' = up \<and> newTasks w3 w4 = [] \<and> active w4 = active w3
          else up' = preventDefault up \<and> defaultPrevented up' \<and> \<not> active w4 (inst c) \<and>
               newTasks w3 w4 = [Click (currentTarget up) (withoutView (preventDefault up))] \<and>
               microtasks w4 =
                 microtasks w3 @ [Click (currentTarget up) (withoutView (preventDefault up))] \<and>
               beforeEvent w4 = beforeEvent w3)"
    using up by (auto simp: world_ops event_ops split: if_splits)
  ultimately show ?thesis
    using marker by blast
qed

theorem space_keydown_then_keyup_witness:
  "\<not> isNativeClick (domDeps False) (keyEvent '' '' divEl) \<and>
   activeRef (snd (onKeyDown (domDeps False) plain (keyEvent '' '' divEl) idle)) 0 \<and>
   active (snd (onKeyDown (domDeps False) plain (keyEvent '' '' divEl) idle)) 0 \<and>
   defaultPrevented (fst (onKeyDown (domDeps False) plain (keyEvent '' '' divEl) idle)) \<and>
   newTasks idle (snd (onKeyDown (domDeps False) plain (keyEvent '' '' divEl) idle)) = [] \<and>
   \<not> activeRef
       (snd (onKeyUp (domDeps False) plain (keyEvent '' '' divEl)
              (snd (onKeyDown (domDeps False) plain (keyEvent '' '' divEl) idle)))) 0 \<and>
   \<not> active
       (snd (onKeyUp (domDeps False) plain (keyEvent '' '' divEl)
              (snd (onKeyDown (domDeps False) plain (keyEvent '' '' divEl) idle)))) 0 \<and>
   newTasks (snd (onKeyDown (domDeps False) plain (keyEvent '' '' divEl) idle))
     (snd (onKeyUp (domDeps False) plain (keyEvent '' '' divEl)
            (snd (onKeyDown (domDeps False) plain (keyEvent '' '' divEl) idle)))) =
     [Click divEl (withoutView (preventDefault (keyEvent '' '' divEl)))]"
proof -
  let ?d = "domDeps False" and ?e = "keyEvent '' '' divEl"
  let ?down = "onKeyDown ?d plain ?e idle"
  let ?up = "onKeyUp ?d plain ?e (snd ?down)"
  have space: "clickOnSpace plain" "key ?e = '' ''"
    by (simp_all add: fixtures)
  have user_down: "callProp (onKeyDownProp plain) ?e idle = (?e, idle)"
    by (simp add: fixtures)
  have free_down: "\<not> keyDownVeto ?d plain ?e"
    by (simp add: keyDownVeto_def fixtures)
  have user_up: "callProp (onKeyUpProp plain) ?e (snd ?down) = (?e, snd ?down)"
    by (simp add: fixtures)
  have free_up: "\<not> keyUpVeto plain ?e"
    by (simp add: keyUpVeto_def fixtures)
  have synth: "\<not> isNativeClick ?d ?e"
    by (simp add: isNativeClick_def fixtures)
  have el: "currentTarget ?e = divEl" "inst plain = 0"
    by (simp_all add: fixtures)
  have "?down = (fst ?down, snd ?down)" and "?up = (fst ?up, snd ?up)"
    by simp_all
  from space_keydown_then_keyup
    [OF space(1) user_down free_down space(2) this(1) user_up refl free_up space(2) this(2)]
  show ?thesis
    using synth by (auto simp: el)
qed

section \<open>A key whose option is off\<close>

text \<open>
  C8. On a keydown that no guard stops, whose key is Enter while \<^verbatim>\<open>clickOnEnter\<close> is
  false or Space while \<^verbatim>\<open>clickOnSpace\<close> is false, the handler calls
  \<^verbatim>\<open>preventDefault\<close> and returns: the world is as the user-supplied handler left
  it, so no click is scheduled.
\<close>

theorem disabled_key_is_prevented:
  assumes "callProp (onKeyDownProp c) event0 w0 = (event, w)"
    and "\<not> keyDownVeto d c event"
    and "(key event = ''Enter'' \<and> \<not> clickOnEnter c) \<or> (key event = '' '' \<and> \<not> clickOnSpace c)"
    and "onKeyDown d c event0 w0 = (event', w')"
  shows "event' = preventDefault event \<and> defaultPrevented event' \<and> w' = w \<and>
         newTasks w w' = []"
  using assms onKeyDown_unvetoed [OF assms(1,2)]
  by (auto simp: world_ops event_ops)

theorem disabled_key_is_prevented_witness:
  "\<not> keyDownVeto (domDeps False) (plain\<lparr>clickOnEnter := False\<rparr>) (keyEvent ''Enter'' divEl) \<and>
   onKeyDown (domDeps False) (plain\<lparr>clickOnEnter := False\<rparr>) (keyEvent ''Enter'' divEl) idle =
     (preventDefault (keyEvent ''Enter'' divEl), idle)"
proof -
  let ?d = "domDeps False" and ?e = "keyEvent ''Enter'' divEl"
  let ?c = "plain\<lparr>clickOnEnter := False\<rparr>"
  have user: "callProp (onKeyDownProp ?c) ?e idle = (?e, idle)"
    by (simp add: fixtures)
  have free: "\<not> keyDownVeto ?d ?c ?e"
    by (simp add: keyDownVeto_def fixtures)
  have off: "(key ?e = ''Enter'' \<and> \<not> clickOnEnter ?c) \<or> (key ?e = '' '' \<and> \<not> clickOnSpace ?c)"
    by (simp add: fixtures)
  have res: "onKeyDown ?d ?c ?e idle =
      (fst (onKeyDown ?d ?c ?e idle), snd (onKeyDown ?d ?c ?e idle))"
    by simp
  show ?thesis
    using disabled_key_is_prevented [OF user free off res] free
    by (auto simp: prod_eq_iff)
qed

section \<open>The guards of the keyup handler\<close>

text \<open>
  The keyup handler has no guard on the element being a text field or content-editable.
  A Space keydown on a DIV sets the marker; the DIV is then made content-editable; the
  Space keyup on it is not ignored, it queues a click.
\<close>

theorem keyup_contenteditable_counterexample:
  "isContentEditable (currentTarget (keyEvent '' '' editableEl)) \<and>
   callProp (onKeyUpProp plain) (keyEvent '' '' editableEl)
     (snd (onKeyDown (domDeps False) plain (keyEvent '' '' divEl) idle)) =
     (keyEvent '' '' editableEl, snd (onKeyDown (domDeps False) plain (keyEvent '' '' divEl) idle)) \<and>
   onKeyUp (domDeps False) plain (keyEvent '' '' editableEl)
     (snd (onKeyDown (domDeps False) plain (keyEvent '' '' divEl) idle)) \<noteq>
     (keyEvent '' '' editableEl, snd (onKeyDown (domDeps False) plain (keyEvent '' '' divEl) idle)) \<and>
   microtasks
     (snd (onKeyUp (domDeps False) plain (keyEvent '' '' editableEl)
            (snd (onKeyDown (domDeps False) plain (keyEvent '' '' divEl) idle)))) =
     [Click editableEl (withoutView (preventDefault (keyEvent '' '' editableEl)))]"
  by (simp add: onKeyUp_def onKeyDown_def isNativeClick_def fixtures world_ops event_ops Let_def)

text \<open>
  C5, as the code has it. The user-supplied \<^verbatim>\<open>onKeyUp\<close> runs first, whatever the
  instance is. Then the keyup handler returns with no further action when the event's
  default is prevented, the instance is a duplicate registration, the element is disabled,
  or the meta key is held. Of the guards of the keydown handler it has neither the
  self-target check nor the text-field check: its result does not depend on
  \<^verbatim>\<open>isSelfTarget\<close> or \<^verbatim>\<open>isTextField\<close>.
\<close>

theorem keyup_user_handler_then_guards:
  assumes "callProp (onKeyUpProp c) event0 w0 = (event, w)"
  shows "onKeyUp d c event0 w0 = onKeyUp d (c\<lparr>onKeyUpProp := None\<rparr>) event w \<and>
         (defaultPrevented event \<or> isDuplicate c \<or> disabled c \<or> metaKey event \<longrightarrow>
            onKeyUp d c event0 w0 = (event, w)) \<and>
         onKeyUp (d\<lparr>isSelfTarget := selfTarget, isTextField := textField\<rparr>) c event0 w0 =
           onKeyUp d c event0 w0"
proof -
  have native: "isNativeClick (d\<lparr>isSelfTarget := selfTarget, isTextField := textField\<rparr>) e =
      isNativeClick d e" for e
    by (simp add: isNativeClick_def)
  have independent:
    "onKeyUp (d\<lparr>isSelfTarget := selfTarget, isTextField := textField\<rparr>) c event0 w0 =
      onKeyUp d c event0 w0"
    by (simp only: onKeyUp_def native)
  have "keyUpVeto c event \<longrightarrow> onKeyUp d c event0 w0 = (event, w)"
    using assms by (simp add: onKeyUp_vetoed)
  then show ?thesis
    using independent onKeyUp_after_prop [OF assms, of d] unfolding keyUpVeto_def by blast
qed

text \<open>A Space keyup with the meta key held, after a Space keydown that set the marker.\<close>

theorem keyup_user_handler_then_guards_witness:
  "metaKey ((keyEvent '' '' divEl)\<lparr>metaKey := True\<rparr>) \<and>
   onKeyUp (domDeps False) plain ((keyEvent '' '' divEl)\<lparr>metaKey := True\<rparr>)
     (snd (onKeyDown (domDeps False) plain (keyEvent '' '' divEl) idle)) =
     ((keyEvent '' '' divEl)\<lparr>metaKey := True\<rparr>,
      snd (onKeyDown (domDeps False) plain (keyEvent '' '' divEl) idle))"
proof -
  let ?e = "(keyEvent '' '' divEl)\<lparr>metaKey := True\<rparr>"
  let ?w = "snd (onKeyDown (domDeps False) plain (keyEvent '' '' divEl) idle)"
  have user: "callProp (onKeyUpProp plain) ?e ?w = (?e, ?w)"
    by (simp add: fixtures)
  have meta: "metaKey ?e"
    by simp
  show ?thesis
    using keyup_user_handler_then_guards [OF user, of "domDeps False"] meta by blast
qed

section \<open>One click for one key press\<close>

text \<open>
  C6. One key press is a keydown followed by its keyup (the same key), handled by the
  handlers attached to the element. These are the handlers of a registration \<open>c\<close>, or
  of any stack of nested registrations over \<open>c\<close>, which behave as the handlers of
  \<open>c\<close> alone. Over the press the two handlers only append to the queues, and they
  schedule at most one click between them (counted from what the user-supplied handlers of
  \<open>c\<close> left). For an Enter press that no guard stops, with \<^verbatim>\<open>clickOnEnter\<close> true
  and \<^verbatim>\<open>isNativeClick\<close> false, they schedule exactly one: one on keydown and none
  on keyup, however many registrations are nested.
\<close>

theorem one_click_per_key_press:
  assumes "attached = nestAll d c dups"
    and "callProp (onKeyDownProp c) down0 w0 = (down, w1)"
    and "onKeyDown d attached down0 w0 = (down', w2)"
    and "callProp (onKeyUpProp c) up0 w2 = (up, w3)"
    and "onKeyUp d attached up0 w2 = (up', w4)"
    and "key up = key down"
  shows "onKeyDown d attached = onKeyDown d c \<and> onKeyUp d attached = onKeyUp d c \<and>
         appendsOnly w1 w2 \<and> appendsOnly w3 w4 \<and>
         length (newTasks w1 w2) + length (newTasks w3 w4) \<le> 1 \<and>
         (key down = ''Enter'' \<and> clickOnEnter c \<and> \<not> keyDownVeto d c down \<and>
          \<not> isNativeClick d down \<longrightarrow>
            length (newTasks w1 w2) = 1 \<and> newTasks w3 w4 = [])"
proof -
  have same: "onKeyDown d attached = onKeyDown d c \<and> onKeyUp d attached = onKeyUp d c"
    using assms(1) handlers_nestAll [of d c dups] by simp
  then have down: "onKeyDown d c down0 w0 = (down', w2)"
    and up: "onKeyUp d c up0 w2 = (up', w4)"
    using assms(3,5) by simp_all
  have differ: "\<not> (key down = ''Enter'' \<and> key up = '' '')"
    using assms(6) by auto
  have "appendsOnly w1 w2 \<and> appendsOnly w3 w4 \<and>
         length (newTasks w1 w2) + length (newTasks w3 w4) \<le> 1 \<and>
         (key down = ''Enter'' \<and> clickOnEnter c \<and> \<not> keyDownVeto d c down \<and>
          \<not> isNativeClick d down \<longrightarrow>
            length (newTasks w1 w2) = 1 \<and> newTasks w3 w4 = [])"
    using onKeyDown_schedules [OF assms(2) down] onKeyUp_schedules [OF assms(4) up] differ
    by (auto split: if_splits)
  with same show ?thesis
    by blast
qed

text \<open>An Enter press on a DIV with two registrations, the second nested over the first.\<close>

theorem one_click_per_key_press_witness:
  "nestAll (domDeps False) plain [plain\<lparr>inst := 1\<rparr>] =
     plain\<lparr>inst := 1, isDuplicate := True,
       onKeyDownProp := Some (onKeyDown (domDeps False) plain),
       onKeyUpProp := Some (onKeyUp (domDeps False) plain)\<rparr> \<and>
   \<not> keyDownVeto (domDeps False) plain (keyEvent ''Enter'' divEl) \<and>
   \<not> isNativeClick (domDeps False) (keyEvent ''Enter'' divEl) \<and>
   length (newTasks idle
     (snd (onKeyDown (domDeps False) (nestAll (domDeps False) plain [plain\<lparr>inst := 1\<rparr>])
            (keyEvent ''Enter'' divEl) idle))) = 1 \<and>
   newTasks
     (snd (onKeyDown (domDeps False) (nestAll (domDeps False) plain [plain\<lparr>inst := 1\<rparr>])
            (keyEvent ''Enter'' divEl) idle))
     (snd (onKeyUp (domDeps False) (nestAll (domDeps False) plain [plain\<lparr>inst := 1\<rparr>])
            (keyEvent ''Enter'' divEl)
            (snd (onKeyDown (domDeps False) (nestAll (domDeps False) plain [plain\<lparr>inst := 1\<rparr>])
                   (keyEvent ''Enter'' divEl) idle)))) = []"
proof -
  let ?d = "domDeps False" and ?e = "keyEvent ''Enter'' divEl"
  let ?a = "nestAll ?d plain [plain\<lparr>inst := 1\<rparr>]"
  let ?down = "onKeyDown ?d ?a ?e idle"
  let ?up = "onKeyUp ?d ?a ?e (snd ?down)"
  have shape: "?a = plain\<lparr>inst := 1, isDuplicate := True,
      onKeyDownProp := Some (onKeyDown ?d plain), onKeyUpProp := Some (onKeyUp ?d plain)\<rparr>"
    by (simp add: nested_def plain_def)
  have user_down: "callProp (onKeyDownProp plain) ?e idle = (?e, idle)"
    by (simp add: fixtures)
  have user_up: "callProp (onKeyUpProp plain) ?e (snd ?down) = (?e, snd ?down)"
    by (simp add: fixtures)
  have free: "\<not> keyDownVeto ?d plain ?e"
    by (simp add: keyDownVeto_def fixtures)
  have synth: "\<not> isNativeClick ?d ?e"
    by (simp add: isNativeClick_def fixtures)
  have enter: "key ?e = ''Enter''" "clickOnEnter plain"
    by (simp_all add: fixtures)
  have "?down = (fst ?down, snd ?down)" and "?up = (fst ?up, snd ?up)"
    by simp_all
  from one_click_per_key_press [OF refl user_down this(1) user_up this(2) refl]
  show ?thesis
    using shape free synth enter by blast
qed

section \<open>The event init of a synthesized click\<close>

text \<open>
  C7. Every closure that either handler schedules fires a click on the event's current
  target with an event init that is the keyboard event, as the handler leaves it, minus
  \<^verbatim>\<open>view\<close>: the init has no \<^verbatim>\<open>view\<close>, and its \<^verbatim>\<open>shiftKey\<close>,
  \<^verbatim>\<open>ctrlKey\<close>, \<^verbatim>\<open>altKey\<close> and \<^verbatim>\<open>metaKey\<close> are those of the keyboard
  event (both as the user-supplied handler left it and as the handler returns it).
\<close>

theorem synthesized_click_init:
  assumes "(h = onKeyDown d c \<and> prop = onKeyDownProp c) \<or>
           (h = onKeyUp d c \<and> prop = onKeyUpProp c)"
    and "callProp prop event0 w0 = (event, w)"
    and "h event0 w0 = (event', w')"
    and "Click el eventInit \<in> set (newTasks w w')"
  shows "el = currentTarget event \<and> eventInit = withoutView event' \<and>
         view eventInit = None \<and>
         shiftKey eventInit = shiftKey event \<and> ctrlKey eventInit = ctrlKey event \<and>
         altKey eventInit = altKey event \<and> metaKey eventInit = metaKey event \<and>
         shiftKey eventInit = shiftKey event' \<and> ctrlKey eventInit = ctrlKey event' \<and>
         altKey eventInit = altKey event' \<and> metaKey eventInit = metaKey event'"
proof -
  have new: "newTasks w w' = [Click (currentTarget event) (withoutView event')] \<and>
      event' = preventDefault event"
    using assms onKeyDown_schedules [of c event0 w0 event w d event' w']
      onKeyUp_schedules [of c event0 w0 event w d event' w']
    by (auto split: if_splits)
  then have "el = currentTarget event \<and> eventInit = withoutView event'"
    using assms(4) by simp
  with new show ?thesis
    by (simp add: event_ops)
qed

theorem synthesized_click_init_witness:
  "Click divEl (withoutView (preventDefault (keyEvent ''Enter'' divEl)))
     \<in> set (newTasks idle (snd (onKeyDown (domDeps True) plain (keyEvent ''Enter'' divEl) idle))) \<and>
   view (withoutView (preventDefault (keyEvent ''Enter'' divEl))) = None \<and>
   shiftKey (keyEvent ''Enter'' divEl) \<and>
   shiftKey (withoutView (preventDefault (keyEvent ''Enter'' divEl)))"
proof -
  let ?e = "keyEvent ''Enter'' divEl"
  let ?r = "onKeyDown (domDeps True) plain ?e idle"
  have which: "(onKeyDown (domDeps True) plain = onKeyDown (domDeps True) plain \<and>
        onKeyDownProp plain = onKeyDownProp plain) \<or>
      (onKeyDown (domDeps True) plain = onKeyUp (domDeps True) plain \<and>
        onKeyDownProp plain = onKeyUpProp plain)"
    by simp
  have user: "callProp (onKeyDownProp plain) ?e idle = (?e, idle)"
    by (simp add: fixtures)
  have res: "?r = (fst ?r, snd ?r)"
    by simp
  have new: "Click divEl (withoutView (preventDefault ?e)) \<in> set (newTasks idle (snd ?r))"
    unfolding enter_on_div by (simp add: world_ops idle_def)
  have shift: "shiftKey ?e"
    by (simp add: keyEvent_def)
  show ?thesis
    using synthesized_click_init [OF which user res new] new shift by blast
qed

section \<open>A Space keyup that a guard stops\<close>

text \<open>
  C10. A Space keydown on a non-native element sets the marker and the flag. If the Space
  keyup that follows is stopped (the user-supplied handler prevented its default, or the
  meta key is held), the handler does nothing: marker and flag are still set, and
  \<^verbatim>\<open>data-active\<close> is still \<^verbatim>\<open>true\<close>. Nothing resets the flag short of a later
  keyup that fires the click: no keydown resets it, and a keyup resets it only when no
  guard stops it, its key is Space, the marker is set and \<^verbatim>\<open>isNativeClick\<close> is
  false. A later Space keyup that no guard stops, with no keydown in between, clears the
  marker (and the flag) and queues one click as a microtask. The user-supplied keyup
  handler cannot reach the two cells of the instance.
\<close>

theorem vetoed_space_keyup_leaves_active:
  assumes "clickOnSpace c"
    and "callProp (onKeyDownProp c) down0 w0 = (down, w1)"
    and "\<not> keyDownVeto d c down" and "key down = '' ''" and "\<not> isNativeClick d down"
    and "onKeyDown d c down0 w0 = (down', w2)"
    and "callProp (onKeyUpProp c) up0 w2 = (up, w3)"
    and "activeRef w3 (inst c) = activeRef w2 (inst c)"
    and "active w3 (inst c) = active w2 (inst c)"
    and "defaultPrevented up \<or> metaKey up"
    and "onKeyUp d c up0 w2 = (up', w4)"
    and "callProp (onKeyUpProp c) later0 w4 = (later, w5)"
    and "activeRef w5 (inst c) = activeRef w4 (inst c)"
    and "\<not> keyUpVeto c later" and "key later = '' ''" and "\<not> isNativeClick d later"
    and "onKeyUp d c later0 w4 = (later', w6)"
  shows "up' = up \<and> w4 = w3 \<and> activeRef w4 (inst c) \<and> active w4 (inst c) \<and>
         dataActive (active w4 (inst c)) = JBool True \<and>
         (\<forall>e0 v0 e v e' v'.
            callProp (onKeyDownProp c) e0 v0 = (e, v) \<and> onKeyDown d c e0 v0 = (e', v') \<and>
            active v (inst c) \<longrightarrow> active v' (inst c)) \<and>
         (\<forall>e0 v0 e v e' v'.
            callProp (onKeyUpProp c) e0 v0 = (e, v) \<and> onKeyUp d c e0 v0 = (e', v') \<and>
            active v (inst c) \<and> \<not> active v' (inst c) \<longrightarrow>
              \<not> keyUpVeto c e \<and> key e = '' '' \<and> activeRef v (inst c) \<and> \<not> isNativeClick d e) \<and>
         later' = preventDefault later \<and> \<not> activeRef w6 (inst c) \<and> \<not> active w6 (inst c) \<and>
         newTasks w5 w6 = [Click (currentTarget later) (withoutView (preventDefault later))] \<and>
         microtasks w6 =
           microtasks w5 @ [Click (currentTarget later) (withoutView (preventDefault later))] \<and>
         dispatched w6 = dispatched w5"
proof -
  have "(down', w2) =
      (preventDefault down, setActive (inst c) True (setActiveRef (inst c) True w1))"
    using assms(1,4,5,6) onKeyDown_unvetoed [OF assms(2,3)] by auto
  then have set2: "activeRef w2 (inst c) \<and> active w2 (inst c)"
    by (simp add: world_ops)
  have "keyUpVeto c up"
    using assms(10) by (auto simp: keyUpVeto_def)
  then have stay: "up' = up \<and> w4 = w3"
    using assms(11) onKeyUp_vetoed [OF assms(7)] by simp
  then have set4: "activeRef w4 (inst c) \<and> active w4 (inst c)"
    using set2 assms(8,9) by simp
  then have "activeRef w5 (inst c)"
    using assms(13) by simp
  then have "(later', w6) =
      (preventDefault later,
       queueMicrotask (Click (currentTarget later) (withoutView (preventDefault later)))
         (setActive (inst c) False (setActiveRef (inst c) False w5)))"
    using assms(1,15,16,17) onKeyUp_unvetoed [OF assms(12,14), of d] by auto
  then have fire: "later' = preventDefault later \<and> \<not> activeRef w6 (inst c) \<and>
      \<not> active w6 (inst c) \<and>
      newTasks w5 w6 = [Click (currentTarget later) (withoutView (preventDefault later))] \<and>
      microtasks w6 =
        microtasks w5 @ [Click (currentTarget later) (withoutView (preventDefault later))] \<and>
      dispatched w6 = dispatched w5"
    by (simp add: world_ops)
  have only: "(\<forall>e0 v0 e v e' v'.
            callProp (onKeyDownProp c) e0 v0 = (e, v) \<and> onKeyDown d c e0 v0 = (e', v') \<and>
            active v (inst c) \<longrightarrow> active v' (inst c)) \<and>
         (\<forall>e0 v0 e v e' v'.
            callProp (onKeyUpProp c) e0 v0 = (e, v) \<and> onKeyUp d c e0 v0 = (e', v') \<and>
            active v (inst c) \<and> \<not> active v' (inst c) \<longrightarrow>
              \<not> keyUpVeto c e \<and> key e = '' '' \<and> activeRef v (inst c) \<and> \<not> isNativeClick d e)"
    using onKeyDown_keeps_active [of c _ _ _ _ d] onKeyUp_resets_active [of c _ _ _ _ d]
    by blast
  have "dataActive (active w4 (inst c)) = JBool True"
    using set4 by (simp add: dataActive_def)
  with stay set4 only fire show ?thesis
    by blast
qed

text \<open>
  Space is pressed on a DIV, released with the meta key held, and a Space keyup without
  it arrives later.
\<close>

theorem vetoed_space_keyup_leaves_active_witness:
  "metaKey ((keyEvent '' '' divEl)\<lparr>metaKey := True\<rparr>) \<and>
   activeRef
     (snd (onKeyUp (domDeps False) plain ((keyEvent '' '' divEl)\<lparr>metaKey := True\<rparr>)
            (snd (onKeyDown (domDeps False) plain (keyEvent '' '' divEl) idle)))) 0 \<and>
   dataActive (active
     (snd (onKeyUp (domDeps False) plain ((keyEvent '' '' divEl)\<lparr>metaKey := True\<rparr>)
            (snd (onKeyDown (domDeps False) plain (keyEvent '' '' divEl) idle)))) 0) = JBool True \<and>
   \<not> activeRef
     (snd (onKeyUp (domDeps False) plain (keyEvent '' '' divEl)
       (snd (onKeyUp (domDeps False) plain ((keyEvent '' '' divEl)\<lparr>metaKey := True\<rparr>)
              (snd (onKeyDown (domDeps False) plain (keyEvent '' '' divEl) idle)))))) 0 \<and>
   newTasks
     (snd (onKeyUp (domDeps False) plain ((keyEvent '' '' divEl)\<lparr>metaKey := True\<rparr>)
            (snd (onKeyDown (domDeps False) plain (keyEvent '' '' divEl) idle))))
     (snd (onKeyUp (domDeps False) plain (keyEvent '' '' divEl)
       (snd (onKeyUp (domDeps False) plain ((keyEvent '' '' divEl)\<lparr>metaKey := True\<rparr>)
              (snd (onKeyDown (domDeps False) plain (keyEvent '' '' divEl) idle)))))) =
     [Click divEl (withoutView (preventDefault (keyEvent '' '' divEl)))]"
proof -
  let ?d = "domDeps False" and ?e = "keyEvent '' '' divEl"
  let ?m = "(keyEvent '' '' divEl)\<lparr>metaKey := True\<rparr>"
  let ?down = "onKeyDown ?d plain ?e idle"
  let ?up = "onKeyUp ?d plain ?m (snd ?down)"
  let ?later = "onKeyUp ?d plain ?e (snd ?up)"
  have space: "clickOnSpace plain" "key ?e = '' ''"
    by (simp_all add: fixtures)
  have user_down: "callProp (onKeyDownProp plain) ?e idle = (?e, idle)"
    by (simp add: fixtures)
  have free_down: "\<not> keyDownVeto ?d plain ?e"
    by (simp add: keyDownVeto_def fixtures)
  have synth: "\<not> isNativeClick ?d ?e"
    by (simp add: isNativeClick_def fixtures)
  have user_up: "callProp (onKeyUpProp plain) ?m (snd ?down) = (?m, snd ?down)"
    by (simp add: fixtures)
  have held: "defaultPrevented ?m \<or> metaKey ?m"
    by simp
  have user_later: "callProp (onKeyUpProp plain) ?e (snd ?up) = (?e, snd ?up)"
    by (simp add: fixtures)
  have free_later: "\<not> keyUpVeto plain ?e"
    by (simp add: keyUpVeto_def fixtures)
  have el: "currentTarget ?e = divEl" "inst plain = 0" "metaKey ?m"
    by (simp_all add: fixtures)
  have "?down = (fst ?down, snd ?down)" and "?up = (fst ?up, snd ?up)"
    and "?later = (fst ?later, snd ?later)"
    by simp_all
  from vetoed_space_keyup_leaves_active
    [OF space(1) user_down free_down space(2) synth this(1) user_up refl refl held this(2)
      user_later refl free_later space(2) synth this(3)]
  show ?thesis
    using el by (auto simp: el)
qed

section \<open>The props of the hook\<close>

text \<open>
  The caller's props are spread after the two defaults, so a \<^verbatim>\<open>type\<close> of the
  caller's replaces \<^verbatim>\<open>"button"\<close>: the hook called for a native BUTTON with
  \<^verbatim>\<open>type="submit"\<close> returns \<^verbatim>\<open>type="submit"\<close> (here with a
  \<^verbatim>\<open>useFocusable\<close> that returns its argument).
\<close>

theorem type_prop_counterexample:
  "isNativeButton (mountEffect (domDeps False) 0 (Some buttonEl) idle) 0 \<and>
   others (useCommand (domDeps False) 0 None None submitProps
             (mountEffect (domDeps False) 0 (Some buttonEl) idle)) ''type'' =
     Some (JStr ''submit'') \<and>
   others (useCommand (domDeps False) 0 None None submitProps
             (mountEffect (domDeps False) 0 (Some buttonEl) idle)) ''type'' \<noteq>
     Some (JStr ''button'')"
  by (simp add: useCommand_def commandProps_def mountEffect_def setIsNativeButton_def
      fixtures Let_def)

text \<open>
  C9, as the code has it. \<open>built\<close> is the object the hook hands to
  \<^verbatim>\<open>useFocusable\<close> and \<open>returned\<close> what the hook returns; \<^verbatim>\<open>useFocusable\<close>
  is not among the sources and is taken to pass the four props on. Then
  \<^verbatim>\<open>data-active\<close> and \<^verbatim>\<open>type\<close> are the caller's when the caller's props have
  the key, else those of the metadata props when these have it, and else the defaults:
  \<^verbatim>\<open>data-active\<close> is \<^verbatim>\<open>true\<close> when \<^verbatim>\<open>active\<close> is true and
  \<^verbatim>\<open>undefined\<close> (never \<^verbatim>\<open>false\<close>) otherwise, and \<^verbatim>\<open>type\<close> is
  \<^verbatim>\<open>"button"\<close> when \<^verbatim>\<open>isNativeButton\<close> is true and \<^verbatim>\<open>undefined\<close>
  otherwise. The effect after mount sets \<^verbatim>\<open>isNativeButton\<close> to
  \<^verbatim>\<open>isButton\<close> of the mounted element, and leaves it alone when there is none.
  \<^verbatim>\<open>onKeyDown\<close> and \<^verbatim>\<open>onKeyUp\<close> are always the handlers of this call, which
  close over the caller's \<^verbatim>\<open>onKeyDown\<close> and \<^verbatim>\<open>onKeyUp\<close> and call them first.
\<close>

theorem hook_props:
  assumes "built = commandProps d i enterOpt spaceOpt p w"
    and "returned = useCommand d i enterOpt spaceOpt p w"
    and "others returned ''data-active'' = others built ''data-active''"
    and "others returned ''type'' = others built ''type''"
    and "propsOnKeyDown returned = propsOnKeyDown built"
    and "propsOnKeyUp returned = propsOnKeyUp built"
    and "c = closure d i enterOpt spaceOpt p"
    and "metadataProps = snd (useMetadataProps d p)"
  shows "others returned ''data-active'' =
           (case others p ''data-active'' of
              Some v \<Rightarrow> Some v
            | None \<Rightarrow>
                (case metadataProps ''data-active'' of
                   Some v \<Rightarrow> Some v
                 | None \<Rightarrow> Some (if active w i then JBool True else Undefined))) \<and>
         others returned ''type'' =
           (case others p ''type'' of
              Some v \<Rightarrow> Some v
            | None \<Rightarrow>
                (case metadataProps ''type'' of
                   Some v \<Rightarrow> Some v
                 | None \<Rightarrow> Some (if isNativeButton w i then JStr ''button'' else Undefined))) \<and>
         isNativeButton (mountEffect d i (Some el) w) i = isButton d el \<and>
         mountEffect d i None w = w \<and>
         propsOnKeyDown returned = Some (onKeyDown d c) \<and>
         propsOnKeyUp returned = Some (onKeyUp d c) \<and>
         onKeyDownProp c = propsOnKeyDown p \<and> onKeyUpProp c = propsOnKeyUp p \<and>
         (\<forall>event0 w0 event v.
            callProp (propsOnKeyDown p) event0 w0 = (event, v) \<longrightarrow>
            onKeyDown d c event0 w0 = onKeyDown d (c\<lparr>onKeyDownProp := None\<rparr>) event v) \<and>
         (\<forall>event0 w0 event v.
            callProp (propsOnKeyUp p) event0 w0 = (event, v) \<longrightarrow>
            onKeyUp d c event0 w0 = onKeyUp d (c\<lparr>onKeyUpProp := None\<rparr>) event v)"
proof -
  have active: "others built ''data-active'' =
           (case others p ''data-active'' of
              Some v \<Rightarrow> Some v
            | None \<Rightarrow>
                (case metadataProps ''data-active'' of
                   Some v \<Rightarrow> Some v
                 | None \<Rightarrow> Some (if active w i then JBool True else Undefined)))"
    using assms(1,8)
    by (simp add: commandProps_def Let_def map_add_def dataActive_def split: option.splits)
  have type: "others built ''type'' =
           (case others p ''type'' of
              Some v \<Rightarrow> Some v
            | None \<Rightarrow>
                (case metadataProps ''type'' of
                   Some v \<Rightarrow> Some v
                 | None \<Rightarrow> Some (if isNativeButton w i then JStr ''button'' else Undefined)))"
    using assms(1,8)
    by (simp add: commandProps_def Let_def map_add_def typeAttr_def split: option.splits)
  have mount: "isNativeButton (mountEffect d i (Some el) w) i = isButton d el \<and>
      mountEffect d i None w = w"
    by (simp add: mountEffect_def setIsNativeButton_def)
  have handlers: "propsOnKeyDown built = Some (onKeyDown d c) \<and>
      propsOnKeyUp built = Some (onKeyUp d c)"
    using assms(1,7) by (simp add: commandProps_def Let_def)
  have props: "onKeyDownProp c = propsOnKeyDown p \<and> onKeyUpProp c = propsOnKeyUp p"
    using assms(7) by (simp add: closure_def)
  have wrap: "(\<forall>event0 w0 event v.
            callProp (propsOnKeyDown p) event0 w0 = (event, v) \<longrightarrow>
            onKeyDown d c event0 w0 = onKeyDown d (c\<lparr>onKeyDownProp := None\<rparr>) event v) \<and>
         (\<forall>event0 w0 event v.
            callProp (propsOnKeyUp p) event0 w0 = (event, v) \<longrightarrow>
            onKeyUp d c event0 w0 = onKeyUp d (c\<lparr>onKeyUpProp := None\<rparr>) event v)"
    using props onKeyDown_after_prop [of c _ _ _ _ d] onKeyUp_after_prop [of c _ _ _ _ d]
    by simp
  show ?thesis
    using active type mount handlers props wrap assms(3,4,5,6) by simp
qed

text \<open>The hook called without props for a mounted BUTTON.\<close>

theorem hook_props_witness:
  "others (useCommand (domDeps False) 0 None None
             \<lparr>propsOnKeyDown = None, propsOnKeyUp = None, others = Map.empty\<rparr>
             (mountEffect (domDeps False) 0 (Some buttonEl) idle)) ''data-active'' =
     Some Undefined \<and>
   others (useCommand (domDeps False) 0 None None
             \<lparr>propsOnKeyDown = None, propsOnKeyUp = None, others = Map.empty\<rparr>
             (mountEffect (domDeps False) 0 (Some buttonEl) idle)) ''type'' =
     Some (JStr ''button'') \<and>
   propsOnKeyDown (useCommand (domDeps False) 0 None None
             \<lparr>propsOnKeyDown = None, propsOnKeyUp = None, others = Map.empty\<rparr>
             (mountEffect (domDeps False) 0 (Some buttonEl) idle)) =
     Some (onKeyDown (domDeps False)
       (closure (domDeps False) 0 None None
          \<lparr>propsOnKeyDown = None, propsOnKeyUp = None, others = Map.empty\<rparr>))"
proof -
  let ?d = "domDeps False"
  let ?p = "\<lparr>propsOnKeyDown = None, propsOnKeyUp = None, others = Map.empty\<rparr>"
  let ?w = "mountEffect ?d 0 (Some buttonEl) idle"
  have through:
    "others (useCommand ?d 0 None None ?p ?w) ''data-active'' =
       others (commandProps ?d 0 None None ?p ?w) ''data-active''"
    "others (useCommand ?d 0 None None ?p ?w) ''type'' =
       others (commandProps ?d 0 None None ?p ?w) ''type''"
    "propsOnKeyDown (useCommand ?d 0 None None ?p ?w) =
       propsOnKeyDown (commandProps ?d 0 None None ?p ?w)"
    "propsOnKeyUp (useCommand ?d 0 None None ?p ?w) =
       propsOnKeyUp (commandProps ?d 0 None None ?p ?w)"
    by (simp_all add: useCommand_def domDeps_def)
  have cells: "\<not> active ?w 0" "isNativeButton ?w 0"
    by (simp_all add: mountEffect_def setIsNativeButton_def fixtures)
  have absent: "others ?p ''data-active'' = None" "others ?p ''type'' = None"
      "snd (useMetadataProps ?d ?p) ''data-active'' = None"
      "snd (useMetadataProps ?d ?p) ''type'' = None"
    by (simp_all add: domDeps_def)
  show ?thesis
    using hook_props [OF refl refl through refl refl, of buttonEl] cells absent
    by simp
qed

end
